theory Spec2Isabelle
  imports Main "HOL-Library.Word"
begin

section \<open>Wire frames of the TESmart switch client\<close>

text \<open>
  The Go package \<open>commands\<close> drives an HDMI switch over one TCP connection with
  6-byte frames. A Go \<open>byte\<close> is an 8-bit word whose arithmetic wraps around; a Go
  \<open>int\<close> is modelled as a mathematical integer, and the conversion \<open>byte(n)\<close>, which
  keeps the low eight bits, is written out as \<open>to_byte\<close>.
\<close>

type_synonym byte = "8 word"

definition to_byte :: "int \<Rightarrow> byte" where
  "to_byte n = word_of_int n"

text \<open>
  Errors are values. The first four are the error values the package creates itself,
  \<open>ConnError\<close> stands for an error reported by the socket, and \<open>IndexOutOfRange\<close>
  for the run-time panic of an index expression past the end of a slice.
\<close>

datatype error =
    InvalidInputValue
  | InvalidLedTimeoutValue
  | InvalidResponse
  | WrongAmountOfBytes int
  | ConnError string
  | IndexOutOfRange

subsection \<open>Decoding a response: \<open>isValidOutput\<close> and \<open>extractInput\<close>\<close>

text \<open>
  \<open>output[i]\<close> panics when \<open>i\<close> is not below \<open>len(output)\<close>. The operator \<open>&&\<close>
  evaluates its right operand only when the left one is true, so a panic of the right
  operand is not reached after a false left operand.
\<close>

definition byte_at :: "byte list \<Rightarrow> nat \<Rightarrow> error + byte" where
  "byte_at xs i = (if i < length xs then Inr (xs ! i) else Inl IndexOutOfRange)"

definition eq_at :: "byte list \<Rightarrow> nat \<Rightarrow> byte \<Rightarrow> error + bool" where
  "eq_at xs i v = (case byte_at xs i of Inl e \<Rightarrow> Inl e | Inr b \<Rightarrow> Inr (b = v))"

definition andalso :: "error + bool \<Rightarrow> error + bool \<Rightarrow> error + bool" where
  "andalso a b = (case a of Inl e \<Rightarrow> Inl e | Inr False \<Rightarrow> Inr False | Inr True \<Rightarrow> b)"

text \<open>\<open>output[5]-output[4] == 0x16\<close>: the left operand of the subtraction is read first.\<close>

definition checksum_ok :: "byte list \<Rightarrow> error + bool" where
  "checksum_ok output =
     (case byte_at output 5 of
        Inl e \<Rightarrow> Inl e
      | Inr b5 \<Rightarrow> (case byte_at output 4 of
                    Inl e \<Rightarrow> Inl e
                  | Inr b4 \<Rightarrow> Inr (b5 - b4 = 0x16)))"

text \<open>\<open>isValidOutput\<close> of \<open>tesmart-commands.go\<close>: no length test before indexing.\<close>

definition isValidOutput :: "byte list \<Rightarrow> error + bool" where
  "isValidOutput output =
     andalso (andalso (andalso (andalso
       (eq_at output 0 0xAA)
       (eq_at output 1 0xBB))
       (eq_at output 2 0x03))
       (eq_at output 3 0x11))
       (checksum_ok output)"

definition extractInput :: "byte list \<Rightarrow> error + int" where
  "extractInput response =
     (case isValidOutput response of
        Inl e \<Rightarrow> Inl e
      | Inr True \<Rightarrow> (case byte_at response 4 of
                      Inl e \<Rightarrow> Inl e
                    | Inr b \<Rightarrow> Inr (uint b + 1))
      | Inr False \<Rightarrow> Inl InvalidResponse)"

text \<open>
  The variant of the package with context-based cancellation exports the decoder as
  \<open>ExtractInput\<close>; its \<open>isValidOutput\<close> tests \<open>len(output) == 6\<close> first.
\<close>

definition isValidOutput_len :: "byte list \<Rightarrow> error + bool" where
  "isValidOutput_len output =
     andalso (andalso (andalso (andalso (andalso
       (Inr (length output = 6))
       (eq_at output 0 0xAA))
       (eq_at output 1 0xBB))
       (eq_at output 2 0x03))
       (eq_at output 3 0x11))
       (checksum_ok output)"

definition ExtractInput :: "byte list \<Rightarrow> error + int" where
  "ExtractInput response =
     (case isValidOutput_len response of
        Inl e \<Rightarrow> Inl e
      | Inr True \<Rightarrow> (case byte_at response 4 of
                      Inl e \<Rightarrow> Inl e
                    | Inr b \<Rightarrow> Inr (uint b + 1))
      | Inr False \<Rightarrow> Inl InvalidResponse)"

section \<open>Byte slices and the package variables\<close>

text \<open>
  A Go slice is a reference to a backing array: two slices may share one array. The
  store keeps every backing array the program has allocated, the address of an array is
  its position, and \<open>make\<close> appends a new array. All slices of this package span their
  whole array, so a slice is modelled by the address alone.
\<close>

type_synonym addr = nat
type_synonym store = "byte list list"

text \<open>
  The package variables are allocated once, in the order of their declaration. Each
  name below is the slice held by the variable; \<open>package_vars\<close> are the arrays they
  refer to at start-up.
\<close>

definition SWITCH_INPUT :: addr where "SWITCH_INPUT = 0"
definition SET_LED_TIMEOUT :: addr where "SET_LED_TIMEOUT = 1"
definition MUTE_BUZZER :: addr where "MUTE_BUZZER = 2"
definition UNMUTE_BUZZER :: addr where "UNMUTE_BUZZER = 3"
definition ENABLE_AUTO_INPUT_DETECTION :: addr where "ENABLE_AUTO_INPUT_DETECTION = 4"
definition DISABLE_AUTO_INPUT_DETECTION :: addr where "DISABLE_AUTO_INPUT_DETECTION = 5"
definition GET_CURRENT_INPUT :: addr where "GET_CURRENT_INPUT = 6"
definition OUTPUT :: addr where "OUTPUT = 7"

definition package_vars :: store where
  "package_vars =
     [[0xAA, 0xBB, 0x03, 0x01, 0x00, 0xEE],
      [0xAA, 0xBB, 0x03, 0x03, 0x00, 0xEE],
      [0xAA, 0xBB, 0x03, 0x02, 0x00, 0xEE],
      [0xAA, 0xBB, 0x03, 0x02, 0x01, 0xEE],
      [0xAA, 0xBB, 0x03, 0x81, 0x01, 0xEE],
      [0xAA, 0xBB, 0x03, 0x81, 0x00, 0xEE],
      [0xAA, 0xBB, 0x03, 0x10, 0x00, 0xEE],
      [0xAA, 0xBB, 0x03, 0x11]]"

definition templates_intact :: "store \<Rightarrow> bool" where
  "templates_intact h = (take 8 h = package_vars)"

text \<open>\<open>make([]byte, n)\<close>: a new array of \<open>n\<close> zero bytes.\<close>

definition make_bytes :: "nat \<Rightarrow> store \<Rightarrow> addr \<times> store" where
  "make_bytes n h = (length h, h @ [replicate n 0])"

text \<open>
  \<open>copy(dst, src)\<close> overwrites the first \<open>min(len(dst), len(src))\<close> elements of
  \<open>dst\<close>; a socket \<open>Read\<close> fills its buffer the same way with the bytes that arrived.
\<close>

definition copy_bytes :: "byte list \<Rightarrow> byte list \<Rightarrow> byte list" where
  "copy_bytes dst src =
     take (min (length dst) (length src)) src @ drop (min (length dst) (length src)) dst"

subsection \<open>Encoding a command: \<open>injectInputToPayload\<close>\<close>

definition injectInputToPayload :: "addr \<Rightarrow> byte \<Rightarrow> store \<Rightarrow> addr \<times> store" where
  "injectInputToPayload payload input h =
     (let (command, h1) = make_bytes 6 h;
          h2 = h1[command := copy_bytes (h1 ! command) (h1 ! payload)];
          h3 = h2[command := (h2 ! command)[4 := input]]
      in (command, h3))"

section \<open>The client and its two goroutines\<close>

text \<open>
  A buffered channel is the queue of the values in its buffer. A send on a full channel
  and a receive on an empty one do not complete: the goroutine stays parked at the
  operation until another goroutine makes room or supplies a value; this is the result
  \<open>None\<close>.
\<close>

definition chan_send :: "nat \<Rightarrow> 'a \<Rightarrow> 'a list \<Rightarrow> 'a list option" where
  "chan_send cap x q = (if length q < cap then Some (q @ [x]) else None)"

definition chan_recv :: "'a list \<Rightarrow> ('a \<times> 'a list) option" where
  "chan_recv q = (case q of [] \<Rightarrow> None | x # q' \<Rightarrow> Some (x, q'))"

text \<open>
  The state: the store \<open>mem\<close> of byte arrays, and the fields of the struct
  \<open>tesmartSwitch\<close>. The socket \<open>conn\<close> is represented by the sequence of byte strings
  that have been handed to its \<open>Write\<close>. The four channels are created by \<open>connect\<close>
  with capacity 1. \<open>sw\<close> holds the pending-request marker. Dialling, logging and the
  goroutine that reconnects after a read error are not part of the model: the state
  below is that of one established connection.
\<close>

record tesmartSwitch =
  mem :: store
  conn :: "byte list list"
  err :: "error list"
  responses :: "addr list"
  Responses :: "addr list"
  sw :: "bool list"

text \<open>
  What the socket does is not decided by the program: the result of a \<open>Write\<close> (the
  byte count and the error) and of a \<open>Read\<close> (the bytes that arrived and the error) are
  inputs of the model.
\<close>

type_synonym write_result = "int \<times> error option"
type_synonym read_result = "byte list \<times> error option"

subsection \<open>\<open>send\<close>\<close>

text \<open>
  \<open>send\<close> performs three actions in this order: \<open>t.conn.Write(command)\<close>, with a return
  on error; \<open>t.sw <- true\<close>; the test \<open>bytesSent != 6\<close> and the return. Another
  goroutine may run between any two of them, so each is one step.
\<close>

datatype send_pc =
    Send_Write addr
  | Send_Mark int
  | Send_Check int
  | Send_Return "error option"

fun send_step :: "write_result \<Rightarrow> send_pc \<Rightarrow> tesmartSwitch \<Rightarrow> (send_pc \<times> tesmartSwitch) option" where
  "send_step wr (Send_Write command) t =
     (let t' = t\<lparr>conn := conn t @ [mem t ! command]\<rparr>
      in case snd wr of
           Some e \<Rightarrow> Some (Send_Return (Some e), t')
         | None \<Rightarrow> Some (Send_Mark (fst wr), t'))"
| "send_step wr (Send_Mark bytesSent) t =
     (case chan_send 1 True (sw t) of
        None \<Rightarrow> None
      | Some q \<Rightarrow> Some (Send_Check bytesSent, t\<lparr>sw := q\<rparr>))"
| "send_step wr (Send_Check bytesSent) t =
     (if bytesSent \<noteq> 6 then Some (Send_Return (Some (WrongAmountOfBytes bytesSent)), t)
      else Some (Send_Return None, t))"
| "send_step wr (Send_Return r) t = None"

text \<open>
  A call runs until it returns or parks. \<open>send_run\<close> takes the steps of \<open>send\<close> with no
  other goroutine in between; three steps reach the return unless the marker send parks.
\<close>

datatype 'a outcome = Returns 'a | Parked

fun send_run :: "nat \<Rightarrow> write_result \<Rightarrow> send_pc \<Rightarrow> tesmartSwitch \<Rightarrow> send_pc \<times> tesmartSwitch" where
  "send_run 0 wr pc t = (pc, t)"
| "send_run (Suc k) wr pc t =
     (case send_step wr pc t of
        None \<Rightarrow> (pc, t)
      | Some (pc', t') \<Rightarrow> send_run k wr pc' t')"

definition send :: "addr \<Rightarrow> write_result \<Rightarrow> tesmartSwitch \<Rightarrow> error option outcome \<times> tesmartSwitch" where
  "send command wr t =
     (case send_run 3 wr (Send_Write command) t of
        (Send_Return r, t') \<Rightarrow> (Returns r, t')
      | (_, t') \<Rightarrow> (Parked, t'))"

subsection \<open>The public operations\<close>

text \<open>\<open>extractInput(<-t.responses)\<close>: wait for a frame on \<open>responses\<close> and decode it.\<close>

definition await_response :: "tesmartSwitch \<Rightarrow> (error + int) outcome \<times> tesmartSwitch" where
  "await_response t =
     (case chan_recv (responses t) of
        None \<Rightarrow> (Parked, t)
      | Some (response, q) \<Rightarrow> (Returns (extractInput (mem t ! response)), t\<lparr>responses := q\<rparr>))"

text \<open>
  \<open>SwitchInput\<close> and \<open>SetLedTimeout\<close> discard the result of \<open>send\<close> and go on to wait
  for the response. The guards are those of the source, with \<open>&&\<close>.
\<close>

definition SwitchInput :: "int \<Rightarrow> write_result \<Rightarrow> tesmartSwitch \<Rightarrow> (error + int) outcome \<times> tesmartSwitch" where
  "SwitchInput input wr t =
     (if input < 1 \<and> input > 16 then (Returns (Inl InvalidInputValue), t)
      else let (command, h) = injectInputToPayload SWITCH_INPUT (to_byte input) (mem t)
           in case send command wr (t\<lparr>mem := h\<rparr>) of
                (Parked, t') \<Rightarrow> (Parked, t')
              | (Returns _, t') \<Rightarrow> await_response t')"

definition SetLedTimeout :: "int \<Rightarrow> write_result \<Rightarrow> tesmartSwitch \<Rightarrow> (error + int) outcome \<times> tesmartSwitch" where
  "SetLedTimeout input wr t =
     (if input < 0 \<and> input > 30 then (Returns (Inl InvalidLedTimeoutValue), t)
      else let (command, h) = injectInputToPayload GET_CURRENT_INPUT (to_byte input) (mem t)
           in case send command wr (t\<lparr>mem := h\<rparr>) of
                (Parked, t') \<Rightarrow> (Parked, t')
              | (Returns _, t') \<Rightarrow> await_response t')"

definition MuteBuzzer :: "write_result \<Rightarrow> tesmartSwitch \<Rightarrow> error option outcome \<times> tesmartSwitch" where
  "MuteBuzzer wr t = send MUTE_BUZZER wr t"

definition UnmuteBuzzer :: "write_result \<Rightarrow> tesmartSwitch \<Rightarrow> error option outcome \<times> tesmartSwitch" where
  "UnmuteBuzzer wr t = send UNMUTE_BUZZER wr t"

definition EnableAutoInputDetection :: "write_result \<Rightarrow> tesmartSwitch \<Rightarrow> error option outcome \<times> tesmartSwitch" where
  "EnableAutoInputDetection wr t = send ENABLE_AUTO_INPUT_DETECTION wr t"

definition DisableAutoInputDetection :: "write_result \<Rightarrow> tesmartSwitch \<Rightarrow> error option outcome \<times> tesmartSwitch" where
  "DisableAutoInputDetection wr t = send DISABLE_AUTO_INPUT_DETECTION wr t"

definition GetCurrentInput :: "write_result \<Rightarrow> tesmartSwitch \<Rightarrow> (error + int) outcome \<times> tesmartSwitch" where
  "GetCurrentInput wr t =
     (case send GET_CURRENT_INPUT wr t of
        (Parked, t') \<Rightarrow> (Parked, t')
      | (Returns _, t') \<Rightarrow> await_response t')"

subsection \<open>The variant with context-based cancellation\<close>

text \<open>
  In this variant of the package \<open>send\<close> has no marker channel, and \<open>SwitchInput\<close>
  and \<open>SetLedTimeout\<close> return the result of \<open>send\<close> instead of waiting for a frame.
  Their guards and templates are the same as above.
\<close>

definition send_ctx :: "addr \<Rightarrow> write_result \<Rightarrow> tesmartSwitch \<Rightarrow> error option \<times> tesmartSwitch" where
  "send_ctx command wr t =
     (let t' = t\<lparr>conn := conn t @ [mem t ! command]\<rparr>
      in case snd wr of
           Some e \<Rightarrow> (Some e, t')
         | None \<Rightarrow> if fst wr \<noteq> 6 then (Some (WrongAmountOfBytes (fst wr)), t')
                   else (None, t'))"

definition SwitchInput_ctx :: "int \<Rightarrow> write_result \<Rightarrow> tesmartSwitch \<Rightarrow> error option \<times> tesmartSwitch" where
  "SwitchInput_ctx input wr t =
     (if input < 1 \<and> input > 16 then (Some InvalidInputValue, t)
      else let (command, h) = injectInputToPayload SWITCH_INPUT (to_byte input) (mem t)
           in send_ctx command wr (t\<lparr>mem := h\<rparr>))"

definition SetLedTimeout_ctx :: "int \<Rightarrow> write_result \<Rightarrow> tesmartSwitch \<Rightarrow> error option \<times> tesmartSwitch" where
  "SetLedTimeout_ctx input wr t =
     (if input < 0 \<and> input > 30 then (Some InvalidLedTimeoutValue, t)
      else let (command, h) = injectInputToPayload GET_CURRENT_INPUT (to_byte input) (mem t)
           in send_ctx command wr (t\<lparr>mem := h\<rparr>))"

subsection \<open>\<open>receiveLoop\<close>\<close>

text \<open>
  One iteration: allocate \<open>response\<close> and \<open>Read\<close> into it; on a read error send the
  error on \<open>err\<close> and leave the loop; otherwise the \<open>select\<close> takes the marker from
  \<open>sw\<close> if one is there and the frame is then sent on \<open>responses\<close>, and without a
  marker the \<open>default\<close> case sends the frame on \<open>Responses\<close>.
\<close>

datatype recv_pc =
    Recv_Read
  | Recv_Err error
  | Recv_Select addr
  | Recv_To_responses addr
  | Recv_To_Responses addr
  | Recv_End

fun receiveLoop_step :: "read_result \<Rightarrow> recv_pc \<Rightarrow> tesmartSwitch \<Rightarrow> (recv_pc \<times> tesmartSwitch) option" where
  "receiveLoop_step rd Recv_Read t =
     (let (response, h1) = make_bytes 6 (mem t);
          h2 = h1[response := copy_bytes (h1 ! response) (fst rd)];
          t' = t\<lparr>mem := h2\<rparr>
      in case snd rd of
           Some e \<Rightarrow> Some (Recv_Err e, t')
         | None \<Rightarrow> Some (Recv_Select response, t'))"
| "receiveLoop_step rd (Recv_Err e) t =
     (case chan_send 1 e (err t) of
        None \<Rightarrow> None
      | Some q \<Rightarrow> Some (Recv_End, t\<lparr>err := q\<rparr>))"
| "receiveLoop_step rd (Recv_Select response) t =
     (case chan_recv (sw t) of
        Some (_, q) \<Rightarrow> Some (Recv_To_responses response, t\<lparr>sw := q\<rparr>)
      | None \<Rightarrow> Some (Recv_To_Responses response, t))"
| "receiveLoop_step rd (Recv_To_responses response) t =
     (case chan_send 1 response (responses t) of
        None \<Rightarrow> None
      | Some q \<Rightarrow> Some (Recv_Read, t\<lparr>responses := q\<rparr>))"
| "receiveLoop_step rd (Recv_To_Responses response) t =
     (case chan_send 1 response (Responses t) of
        None \<Rightarrow> None
      | Some q \<Rightarrow> Some (Recv_Read, t\<lparr>Responses := q\<rparr>))"
| "receiveLoop_step rd Recv_End t = None"

text \<open>
  The steps of the loop with no other goroutine in between. Three steps (\<open>Read\<close>,
  \<open>select\<close>, channel send) bring an iteration back to the \<open>Read\<close> unless the loop
  parks at a send or ends.
\<close>

fun receiveLoop_run :: "nat \<Rightarrow> read_result \<Rightarrow> recv_pc \<Rightarrow> tesmartSwitch \<Rightarrow> recv_pc \<times> tesmartSwitch" where
  "receiveLoop_run 0 rd pc t = (pc, t)"
| "receiveLoop_run (Suc k) rd pc t =
     (case receiveLoop_step rd pc t of
        None \<Rightarrow> (pc, t)
      | Some (pc', t') \<Rightarrow> receiveLoop_run k rd pc' t')"

definition receiveLoop_iteration :: "read_result \<Rightarrow> tesmartSwitch \<Rightarrow> recv_pc \<times> tesmartSwitch" where
  "receiveLoop_iteration rd t = receiveLoop_run 3 rd Recv_Read t"

subsection \<open>Interleaving\<close>

text \<open>
  A schedule lists which goroutine takes the next step, together with what the socket
  answers if the step is a \<open>Write\<close> or a \<open>Read\<close>. A step that cannot be taken (the
  goroutine is parked or has finished) makes the schedule impossible.
\<close>

datatype action = Caller write_result | Receiver read_result

type_synonym config = "send_pc \<times> recv_pc \<times> tesmartSwitch"

fun interleave :: "action list \<Rightarrow> config \<Rightarrow> config option" where
  "interleave [] c = Some c"
| "interleave (Caller wr # as) (sp, rp, t) =
     (case send_step wr sp t of
        None \<Rightarrow> None
      | Some (sp', t') \<Rightarrow> interleave as (sp', rp, t'))"
| "interleave (Receiver rd # as) (sp, rp, t) =
     (case receiveLoop_step rd rp t of
        None \<Rightarrow> None
      | Some (rp', t') \<Rightarrow> interleave as (sp, rp', t'))"

text \<open>The state after \<open>connect\<close>: the package variables in the store, empty channels.\<close>

definition connected :: tesmartSwitch where
  "connected = \<lparr>mem = package_vars, conn = [], err = [], responses = [], Responses = [], sw = []\<rparr>"

text \<open>
  \<open>keeps_arrays t t'\<close>: every byte array that exists in \<open>t\<close> has the same contents in
  \<open>t'\<close>; arrays may only have been added.
\<close>

definition keeps_arrays :: "tesmartSwitch \<Rightarrow> tesmartSwitch \<Rightarrow> bool" where
  "keeps_arrays t t' = (take (length (mem t)) (mem t') = mem t)"

section \<open>Basic facts about the model\<close>

lemma chan_send_1: "chan_send (Suc 0) x q = (if q = [] then Some [x] else None)"
  by (cases q) (simp_all add: chan_send_def)

lemma injectInputToPayload_eq:
  "payload < length h \<Longrightarrow>
   injectInputToPayload payload input h =
     (length h, h @ [(copy_bytes (replicate 6 0) (h ! payload))[4 := input]])"
  by (simp add: injectInputToPayload_def make_bytes_def nth_append)

lemma send_eq:
  "send command wr t =
     (case snd wr of
        Some e \<Rightarrow> (Returns (Some e), t\<lparr>conn := conn t @ [mem t ! command]\<rparr>)
      | None \<Rightarrow>
          if sw t = []
          then (Returns (if fst wr \<noteq> 6 then Some (WrongAmountOfBytes (fst wr)) else None),
                t\<lparr>conn := conn t @ [mem t ! command], sw := [True]\<rparr>)
          else (Parked, t\<lparr>conn := conn t @ [mem t ! command]\<rparr>))"
  by (simp add: send_def numeral_3_eq_3 chan_send_1 Let_def split: option.splits)

lemma conn_send: "conn (snd (send command wr t)) = conn t @ [mem t ! command]"
  by (simp add: send_eq split: option.splits)

lemma mem_send: "mem (snd (send command wr t)) = mem t"
  by (simp add: send_eq split: option.splits)

lemma conn_await_response: "conn (snd (await_response t)) = conn t"
  by (simp add: await_response_def chan_recv_def split: list.splits)

lemma mem_await_response: "mem (snd (await_response t)) = mem t"
  by (simp add: await_response_def chan_recv_def split: list.splits)

lemma templates_intact_length: "templates_intact h \<Longrightarrow> 8 \<le> length h"
proof -
  assume "templates_intact h"
  then have "length (take 8 h) = length package_vars"
    by (simp only: templates_intact_def)
  then show ?thesis by (simp add: package_vars_def)
qed

lemma templates_intact_nth:
  assumes "templates_intact h" and "i < 8"
  shows "h ! i = package_vars ! i"
proof -
  have "take 8 h ! i = h ! i" using assms(2) by simp
  then show ?thesis using assms(1) by (simp add: templates_intact_def)
qed

lemma copy_into_six:
  "copy_bytes (replicate 6 0) [a, b, c, d, e, f] = [a, b, c, d, e, f]"
  by (simp add: copy_bytes_def)

lemma copy_OUTPUT_into_six:
  "copy_bytes (replicate 6 0) [a, b, c, d] = [a, b, c, d, 0, 0]"
  by (simp add: copy_bytes_def eval_nat_numeral)

lemma then_await_conn:
  "conn (snd (case p of (Parked, t') \<Rightarrow> (Parked, t') | (Returns r, t') \<Rightarrow> await_response t')) = conn (snd p)"
  by (simp add: conn_await_response split: prod.splits outcome.splits)

lemma then_await_mem:
  "mem (snd (case p of (Parked, t') \<Rightarrow> (Parked, t') | (Returns r, t') \<Rightarrow> await_response t')) = mem (snd p)"
  by (simp add: mem_await_response split: prod.splits outcome.splits)

text \<open>The two guards of the public operations are unsatisfiable.\<close>

lemma never_both_SwitchInput: "\<not> (input < 1 \<and> input > (16::int))"
  by arith

lemma never_both_SetLedTimeout: "\<not> (input < 0 \<and> input > (30::int))"
  by arith

lemma conn_SwitchInput:
  assumes "templates_intact (mem t)"
  shows "conn (snd (SwitchInput n wr t)) = conn t @ [[0xAA, 0xBB, 0x03, 0x01, to_byte n, 0xEE]]"
proof -
  have len: "SWITCH_INPUT < length (mem t)"
    using templates_intact_length [OF assms] unfolding SWITCH_INPUT_def by linarith
  have tpl: "mem t ! SWITCH_INPUT = [0xAA, 0xBB, 0x03, 0x01, 0x00, 0xEE]"
    using templates_intact_nth [OF assms, of 0] by (simp add: SWITCH_INPUT_def package_vars_def)
  show ?thesis
    by (simp add: SwitchInput_def never_both_SwitchInput injectInputToPayload_eq [OF len] tpl
        copy_into_six then_await_conn conn_send)
qed

lemma conn_SetLedTimeout:
  assumes "templates_intact (mem t)"
  shows "conn (snd (SetLedTimeout n wr t)) = conn t @ [[0xAA, 0xBB, 0x03, 0x10, to_byte n, 0xEE]]"
proof -
  have len: "GET_CURRENT_INPUT < length (mem t)"
    using templates_intact_length [OF assms] unfolding GET_CURRENT_INPUT_def by linarith
  have tpl: "mem t ! GET_CURRENT_INPUT = [0xAA, 0xBB, 0x03, 0x10, 0x00, 0xEE]"
    using templates_intact_nth [OF assms, of 6] by (simp add: GET_CURRENT_INPUT_def package_vars_def)
  show ?thesis
    by (simp add: SetLedTimeout_def never_both_SetLedTimeout injectInputToPayload_eq [OF len] tpl
        copy_into_six then_await_conn conn_send)
qed

lemma SwitchInput_ctx_eq:
  assumes "templates_intact (mem t)"
  shows "SwitchInput_ctx n (6, None) t =
           (None, t\<lparr>mem := mem t @ [[0xAA, 0xBB, 0x03, 0x01, to_byte n, 0xEE]],
                    conn := conn t @ [[0xAA, 0xBB, 0x03, 0x01, to_byte n, 0xEE]]\<rparr>)"
proof -
  have len: "SWITCH_INPUT < length (mem t)"
    using templates_intact_length [OF assms] unfolding SWITCH_INPUT_def by linarith
  have tpl: "mem t ! SWITCH_INPUT = [0xAA, 0xBB, 0x03, 0x01, 0x00, 0xEE]"
    using templates_intact_nth [OF assms, of 0] by (simp add: SWITCH_INPUT_def package_vars_def)
  show ?thesis
    by (simp add: SwitchInput_ctx_def never_both_SwitchInput injectInputToPayload_eq [OF len] tpl
        copy_into_six send_ctx_def)
qed

lemma SetLedTimeout_ctx_eq:
  assumes "templates_intact (mem t)"
  shows "SetLedTimeout_ctx n (6, None) t =
           (None, t\<lparr>mem := mem t @ [[0xAA, 0xBB, 0x03, 0x10, to_byte n, 0xEE]],
                    conn := conn t @ [[0xAA, 0xBB, 0x03, 0x10, to_byte n, 0xEE]]\<rparr>)"
proof -
  have len: "GET_CURRENT_INPUT < length (mem t)"
    using templates_intact_length [OF assms] unfolding GET_CURRENT_INPUT_def by linarith
  have tpl: "mem t ! GET_CURRENT_INPUT = [0xAA, 0xBB, 0x03, 0x10, 0x00, 0xEE]"
    using templates_intact_nth [OF assms, of 6] by (simp add: GET_CURRENT_INPUT_def package_vars_def)
  show ?thesis
    by (simp add: SetLedTimeout_ctx_def never_both_SetLedTimeout injectInputToPayload_eq [OF len] tpl
        copy_into_six send_ctx_def)
qed

lemma templates_intact_connected: "templates_intact (mem connected)"
  by (simp add: templates_intact_def connected_def package_vars_def)

lemma uint_to_byte: "uint (to_byte n) = n mod 256"
  by (simp add: to_byte_def uint_word_of_int)

section \<open>The frame that \<open>SwitchInput\<close> transmits\<close>

text \<open>
  Claim C1, as amended. For every valid input \<open>n\<close> (from 1 to 16), with the package
  variables holding their initial bytes, \<open>SwitchInput(n)\<close> hands to the socket's
  \<open>Write\<close> the 6-byte frame \<open>AA BB 03 01 n EE\<close>: the parameter byte is the input
  number \<open>n\<close> itself (one-based), not \<open>n - 1\<close>.
\<close>

theorem SwitchInput_transmits_input_number:
  assumes "templates_intact (mem t)" and "1 \<le> n" and "n \<le> 16"
  shows "conn (snd (SwitchInput n wr t)) = conn t @ [[0xAA, 0xBB, 0x03, 0x01, to_byte n, 0xEE]]
         \<and> uint (to_byte n) = n"
  using assms conn_SwitchInput [of t n wr] by (simp add: uint_to_byte)

theorem SwitchInput_transmits_input_number_witness:
  "templates_intact (mem connected) \<and> (1::int) \<le> 3 \<and> (3::int) \<le> 16
   \<and> conn (snd (SwitchInput 3 (6, None) connected)) = [[0xAA, 0xBB, 0x03, 0x01, 0x03, 0xEE]]"
  using SwitchInput_transmits_input_number [of connected 3 "(6, None)"] templates_intact_connected
  by (simp add: to_byte_def connected_def)

text \<open>
  \<open>SwitchInput(3)\<close> transmits \<open>AA BB 03 01 03 EE\<close>, which is not the frame
  \<open>AA BB 03 01 02 EE\<close> with the zero-based index.
\<close>

theorem SwitchInput_zero_based_counterexample:
  "conn (snd (SwitchInput 3 (6, None) connected)) = [[0xAA, 0xBB, 0x03, 0x01, 0x03, 0xEE]]
   \<and> conn (snd (SwitchInput 3 (6, None) connected)) \<noteq> [[0xAA, 0xBB, 0x03, 0x01, 0x02, 0xEE]]"
  using conn_SwitchInput [OF templates_intact_connected, of 3 "(6, None)"]
  by (simp add: to_byte_def connected_def)

section \<open>The decoder\<close>

lemma andalso_Inr: "andalso (Inr p) b = (if p then b else Inr False)"
  by (cases p) (simp_all add: andalso_def)

lemma six_bytes: "length xs = 6 \<Longrightarrow> \<exists>a b c d e f. xs = [a, b, c, d, e, f]"
  by (auto simp: eval_nat_numeral length_Suc_conv)

lemma extractInput_six:
  "extractInput [a, b, c, d, e, f] =
     (if a = 0xAA \<and> b = 0xBB \<and> c = 0x03 \<and> d = 0x11 \<and> f - e = 0x16
      then Inr (uint e + 1) else Inl InvalidResponse)"
  by (simp add: extractInput_def isValidOutput_def eq_at_def byte_at_def checksum_ok_def andalso_Inr)

lemma ExtractInput_six:
  "ExtractInput [a, b, c, d, e, f] =
     (if a = 0xAA \<and> b = 0xBB \<and> c = 0x03 \<and> d = 0x11 \<and> f - e = 0x16
      then Inr (uint e + 1) else Inl InvalidResponse)"
  by (simp add: ExtractInput_def isValidOutput_len_def eq_at_def byte_at_def checksum_ok_def andalso_Inr)

lemma ExtractInput_other_length:
  "length frame \<noteq> 6 \<Longrightarrow> ExtractInput frame = Inl InvalidResponse"
  by (simp add: ExtractInput_def isValidOutput_len_def andalso_Inr)

text \<open>
  Claim C3. The decoder accepts a frame if and only if its length is 6, bytes 0 to 3
  are \<open>AA BB 03 11\<close> and \<open>frame[5] - frame[4]\<close>, computed on bytes, is \<open>0x16\<close>; it
  then returns \<open>frame[4] + 1\<close>, and for every other frame it returns the error
  \<open>invalid response\<close>. This is \<open>ExtractInput\<close>; on every 6-byte frame the decoder
  \<open>extractInput\<close> without the length test returns the same.
\<close>

theorem ExtractInput_accepts_iff:
  "ExtractInput frame =
     (if length frame = 6 \<and> frame ! 0 = 0xAA \<and> frame ! 1 = 0xBB \<and> frame ! 2 = 0x03
         \<and> frame ! 3 = 0x11 \<and> frame ! 5 - frame ! 4 = 0x16
      then Inr (uint (frame ! 4) + 1) else Inl InvalidResponse)
   \<and> (length frame = 6 \<longrightarrow> extractInput frame = ExtractInput frame)"
proof (cases "length frame = 6")
  case True
  then obtain a b c d e f where "frame = [a, b, c, d, e, f]"
    using six_bytes by blast
  then show ?thesis
    by (simp add: ExtractInput_six extractInput_six)
next
  case False
  then show ?thesis
    by (simp add: ExtractInput_other_length)
qed

theorem ExtractInput_accepts_iff_witness:
  "ExtractInput [0xAA, 0xBB, 0x03, 0x11, 0x02, 0x18] = Inr 3
   \<and> extractInput [0xAA, 0xBB, 0x03, 0x11, 0x02, 0x18] = Inr 3
   \<and> ExtractInput [0xAA, 0xBB, 0x03, 0x11, 0x02, 0x19] = Inl InvalidResponse
   \<and> ExtractInput [0xAA, 0xBB, 0x03, 0x11, 0x02, 0x18, 0xEE] = Inl InvalidResponse"
  using ExtractInput_accepts_iff [of "[0xAA, 0xBB, 0x03, 0x11, 0x02, 0x18]"]
        ExtractInput_accepts_iff [of "[0xAA, 0xBB, 0x03, 0x11, 0x02, 0x19]"]
        ExtractInput_accepts_iff [of "[0xAA, 0xBB, 0x03, 0x11, 0x02, 0x18, 0xEE]"]
  by simp

text \<open>Every buffer that the read loop dispatches has six bytes.\<close>

lemma receiveLoop_buffer_length:
  "receiveLoop_step rd Recv_Read t = Some (Recv_Select response, t')
   \<Longrightarrow> length (mem t' ! response) = 6"
  by (auto simp: make_bytes_def copy_bytes_def Let_def split: option.splits)

lemma neg_byte_eq: "(0 - v = (0x16::byte)) = (v = 0xEA)"
proof
  assume "0 - v = (0x16::byte)"
  then have "v = 0 - 0x16" by (metis diff_0 minus_equation_iff)
  then show "v = 0xEA" by simp
next
  assume "v = 0xEA"
  then show "0 - v = (0x16::byte)" by simp
qed

lemma templates_intact_package_vars: "templates_intact package_vars"
  by (simp add: templates_intact_def package_vars_def)

lemma inject_OUTPUT:
  assumes "templates_intact h"
  shows "injectInputToPayload OUTPUT v h = (length h, h @ [[0xAA, 0xBB, 0x03, 0x11, v, 0x00]])"
proof -
  have len: "OUTPUT < length h"
    using templates_intact_length [OF assms] unfolding OUTPUT_def by linarith
  have tpl: "h ! OUTPUT = [0xAA, 0xBB, 0x03, 0x11]"
    using templates_intact_nth [OF assms, of 7] by (simp add: OUTPUT_def package_vars_def)
  show ?thesis
    by (simp add: injectInputToPayload_eq [OF len] tpl copy_OUTPUT_into_six)
qed

text \<open>
  Claim C5, as amended. Encoding a byte \<open>v\<close> with the four-byte status-response
  template gives \<open>AA BB 03 11 v 00\<close>: byte 5 stays zero, no checksum is written.
  Decoding that frame returns \<open>invalid response\<close>, except for \<open>v = 0xEA\<close> where it
  returns 235. With byte 5 set to \<open>v + 0x16\<close>, decoding returns \<open>v + 1\<close>.
\<close>

theorem status_template_round_trip:
  assumes "templates_intact h"
  shows "injectInputToPayload OUTPUT v h = (length h, h @ [[0xAA, 0xBB, 0x03, 0x11, v, 0x00]])
         \<and> extractInput [0xAA, 0xBB, 0x03, 0x11, v, 0x00]
             = (if v = 0xEA then Inr 235 else Inl InvalidResponse)
         \<and> extractInput [0xAA, 0xBB, 0x03, 0x11, v, v + 0x16] = Inr (uint v + 1)"
proof -
  have dec: "extractInput [0xAA, 0xBB, 0x03, 0x11, v, 0x00]
             = (if v = 0xEA then Inr 235 else Inl InvalidResponse)"
    using neg_byte_eq [of v] by (simp add: extractInput_six)
  have dec': "extractInput [0xAA, 0xBB, 0x03, 0x11, v, v + 0x16] = Inr (uint v + 1)"
    by (simp add: extractInput_six)
  show ?thesis using inject_OUTPUT [OF assms, of v] dec dec' by simp
qed

theorem status_template_round_trip_witness:
  "templates_intact package_vars
   \<and> injectInputToPayload OUTPUT 2 package_vars
       = (8, package_vars @ [[0xAA, 0xBB, 0x03, 0x11, 0x02, 0x00]])
   \<and> extractInput [0xAA, 0xBB, 0x03, 0x11, 0x02, 0x00] = Inl InvalidResponse
   \<and> extractInput [0xAA, 0xBB, 0x03, 0x11, 0x02, 0x18] = Inr 3"
  using templates_intact_package_vars
    status_template_round_trip [OF templates_intact_package_vars, of 2]
  by (simp add: package_vars_def)

text \<open>For \<open>v = 2\<close> the decoder rejects the encoded frame instead of returning 2.\<close>

theorem status_template_round_trip_counterexample:
  "injectInputToPayload OUTPUT 2 package_vars
     = (8, package_vars @ [[0xAA, 0xBB, 0x03, 0x11, 0x02, 0x00]])
   \<and> extractInput ((package_vars @ [[0xAA, 0xBB, 0x03, 0x11, 0x02, 0x00]]) ! 8)
       = Inl InvalidResponse
   \<and> extractInput ((package_vars @ [[0xAA, 0xBB, 0x03, 0x11, 0x02, 0x00]]) ! 8) \<noteq> Inr 2"
proof -
  have enc: "injectInputToPayload OUTPUT 2 package_vars
     = (8, package_vars @ [[0xAA, 0xBB, 0x03, 0x11, 0x02, 0x00]])"
    using inject_OUTPUT [OF templates_intact_package_vars, of 2] by (simp add: package_vars_def)
  have nth: "(package_vars @ [[0xAA, 0xBB, 0x03, 0x11, 0x02, 0x00]]) ! 8
     = [0xAA, 0xBB, 0x03, 0x11, 0x02, 0x00::byte]"
    by (simp add: package_vars_def)
  show ?thesis unfolding nth using enc by (simp add: extractInput_six)
qed

section \<open>Parameter validation and the parameter byte\<close>

lemma extractInput_errors:
  "extractInput response = Inl e \<Longrightarrow> e = InvalidResponse \<or> e = IndexOutOfRange"
  by (auto simp: extractInput_def isValidOutput_def eq_at_def byte_at_def checksum_ok_def
      andalso_def split: sum.splits bool.splits if_splits)

lemma await_response_errors:
  "fst (await_response t) = Returns (Inl e) \<Longrightarrow> e = InvalidResponse \<or> e = IndexOutOfRange"
  by (auto simp: await_response_def chan_recv_def split: list.splits dest: extractInput_errors)

lemma SwitchInput_never_rejects:
  "fst (SwitchInput n wr t) \<noteq> Returns (Inl InvalidInputValue)"
proof
  assume a: "fst (SwitchInput n wr t) = Returns (Inl InvalidInputValue)"
  obtain command h where i: "injectInputToPayload SWITCH_INPUT (to_byte n) (mem t) = (command, h)"
    by (cases "injectInputToPayload SWITCH_INPUT (to_byte n) (mem t)")
  obtain r t' where s: "send command wr (t\<lparr>mem := h\<rparr>) = (r, t')"
    by (cases "send command wr (t\<lparr>mem := h\<rparr>)")
  from a i s have "fst (await_response t') = Returns (Inl InvalidInputValue)"
    by (cases r) (simp_all add: SwitchInput_def never_both_SwitchInput)
  then show False using await_response_errors by blast
qed

lemma SetLedTimeout_never_rejects:
  "fst (SetLedTimeout n wr t) \<noteq> Returns (Inl InvalidLedTimeoutValue)"
proof
  assume a: "fst (SetLedTimeout n wr t) = Returns (Inl InvalidLedTimeoutValue)"
  obtain command h where i: "injectInputToPayload GET_CURRENT_INPUT (to_byte n) (mem t) = (command, h)"
    by (cases "injectInputToPayload GET_CURRENT_INPUT (to_byte n) (mem t)")
  obtain r t' where s: "send command wr (t\<lparr>mem := h\<rparr>) = (r, t')"
    by (cases "send command wr (t\<lparr>mem := h\<rparr>)")
  from a i s have "fst (await_response t') = Returns (Inl InvalidLedTimeoutValue)"
    by (cases r) (simp_all add: SetLedTimeout_def never_both_SetLedTimeout)
  then show False using await_response_errors by blast
qed

text \<open>
  Claim C2. At the inputs 0, 17 and -1 \<open>SwitchInput\<close> returns no validation error:
  it writes the frame with the parameter byte \<open>00\<close>, \<open>11\<close> and \<open>FF\<close> to the socket.
  The variant with context-based cancellation writes the same frames and returns no
  error.
\<close>

theorem SwitchInput_out_of_range_is_sent:
  "conn (snd (SwitchInput 0 (6, None) connected)) = [[0xAA, 0xBB, 0x03, 0x01, 0x00, 0xEE]]
   \<and> fst (SwitchInput 0 (6, None) connected) \<noteq> Returns (Inl InvalidInputValue)
   \<and> conn (snd (SwitchInput 17 (6, None) connected)) = [[0xAA, 0xBB, 0x03, 0x01, 0x11, 0xEE]]
   \<and> fst (SwitchInput 17 (6, None) connected) \<noteq> Returns (Inl InvalidInputValue)
   \<and> conn (snd (SwitchInput (- 1) (6, None) connected)) = [[0xAA, 0xBB, 0x03, 0x01, 0xFF, 0xEE]]
   \<and> fst (SwitchInput (- 1) (6, None) connected) \<noteq> Returns (Inl InvalidInputValue)
   \<and> fst (SwitchInput_ctx 0 (6, None) connected) = None
   \<and> conn (snd (SwitchInput_ctx 0 (6, None) connected)) = [[0xAA, 0xBB, 0x03, 0x01, 0x00, 0xEE]]
   \<and> fst (SwitchInput_ctx 17 (6, None) connected) = None
   \<and> conn (snd (SwitchInput_ctx 17 (6, None) connected)) = [[0xAA, 0xBB, 0x03, 0x01, 0x11, 0xEE]]"
  using conn_SwitchInput [OF templates_intact_connected, of 0 "(6, None)"]
        conn_SwitchInput [OF templates_intact_connected, of 17 "(6, None)"]
        conn_SwitchInput [OF templates_intact_connected, of "- 1" "(6, None)"]
        SwitchInput_ctx_eq [OF templates_intact_connected, of 0]
        SwitchInput_ctx_eq [OF templates_intact_connected, of 17]
  by (simp add: SwitchInput_never_rejects to_byte_def connected_def)

text \<open>
  Claim C4. \<open>SetLedTimeout(5)\<close> writes \<open>AA BB 03 10 05 EE\<close>, built from the
  template \<open>GET_CURRENT_INPUT\<close>, not the LED-timeout frame \<open>AA BB 03 03 05 EE\<close>;
  the values 31 and -1 are written too and not rejected. The variant with context-based
  cancellation does the same.
\<close>

theorem SetLedTimeout_wrong_template:
  "conn (snd (SetLedTimeout 5 (6, None) connected)) = [[0xAA, 0xBB, 0x03, 0x10, 0x05, 0xEE]]
   \<and> conn (snd (SetLedTimeout 5 (6, None) connected)) \<noteq> [[0xAA, 0xBB, 0x03, 0x03, 0x05, 0xEE]]
   \<and> conn (snd (SetLedTimeout 31 (6, None) connected)) = [[0xAA, 0xBB, 0x03, 0x10, 0x1F, 0xEE]]
   \<and> fst (SetLedTimeout 31 (6, None) connected) \<noteq> Returns (Inl InvalidLedTimeoutValue)
   \<and> conn (snd (SetLedTimeout (- 1) (6, None) connected)) = [[0xAA, 0xBB, 0x03, 0x10, 0xFF, 0xEE]]
   \<and> fst (SetLedTimeout (- 1) (6, None) connected) \<noteq> Returns (Inl InvalidLedTimeoutValue)
   \<and> conn (snd (SetLedTimeout_ctx 5 (6, None) connected)) = [[0xAA, 0xBB, 0x03, 0x10, 0x05, 0xEE]]
   \<and> fst (SetLedTimeout_ctx 31 (6, None) connected) = None
   \<and> conn (snd (SetLedTimeout_ctx 31 (6, None) connected)) = [[0xAA, 0xBB, 0x03, 0x10, 0x1F, 0xEE]]"
  using conn_SetLedTimeout [OF templates_intact_connected, of 5 "(6, None)"]
        conn_SetLedTimeout [OF templates_intact_connected, of 31 "(6, None)"]
        conn_SetLedTimeout [OF templates_intact_connected, of "- 1" "(6, None)"]
        SetLedTimeout_ctx_eq [OF templates_intact_connected, of 5]
        SetLedTimeout_ctx_eq [OF templates_intact_connected, of 31]
  by (simp add: SetLedTimeout_never_rejects to_byte_def connected_def)

text \<open>
  Claim C9. For every integer \<open>n\<close> passed to \<open>SwitchInput\<close> or \<open>SetLedTimeout\<close>,
  byte 4 of the transmitted frame is \<open>byte(n)\<close>, whose value is \<open>n mod 256\<close>; so 257
  gives the same frame as 1.
\<close>

theorem parameter_byte_is_input_mod_256:
  assumes "templates_intact (mem t)"
  shows "last (conn (snd (SwitchInput n wr t))) ! 4 = to_byte n
         \<and> last (conn (snd (SetLedTimeout n wr t))) ! 4 = to_byte n
         \<and> uint (to_byte n) = n mod 256
         \<and> conn (snd (SwitchInput 257 wr t)) = conn (snd (SwitchInput 1 wr t))"
proof -
  have same: "to_byte 257 = to_byte 1"
    by (simp add: to_byte_def)
  show ?thesis
    by (simp add: conn_SwitchInput [OF assms] conn_SetLedTimeout [OF assms] uint_to_byte same)
qed

theorem parameter_byte_is_input_mod_256_witness:
  "templates_intact (mem connected)
   \<and> last (conn (snd (SwitchInput 300 (6, None) connected))) ! 4 = 44
   \<and> last (conn (snd (SetLedTimeout (- 1) (6, None) connected))) ! 4 = 255
   \<and> conn (snd (SwitchInput 257 (6, None) connected)) = conn (snd (SwitchInput 1 (6, None) connected))"
  using templates_intact_connected
    parameter_byte_is_input_mod_256 [OF templates_intact_connected, of 300 "(6, None)"]
    parameter_byte_is_input_mod_256 [OF templates_intact_connected, of "- 1" "(6, None)"]
  by (simp add: to_byte_def)

section \<open>The dispatch rule of the read loop\<close>

lemma chan_recv_marker:
  "length q \<le> 1 \<Longrightarrow> chan_recv q = (if q = [] then None else Some (hd q, []))"
  by (cases q) (simp_all add: chan_recv_def)

lemma receiveLoop_read_ok:
  "snd rd = None \<Longrightarrow>
   receiveLoop_step rd Recv_Read t =
     Some (Recv_Select (length (mem t)),
           t\<lparr>mem := mem t @ [copy_bytes (replicate 6 0) (fst rd)]\<rparr>)"
  by (simp add: make_bytes_def)

lemma receiveLoop_select:
  "length (sw t) \<le> 1 \<Longrightarrow>
   receiveLoop_step rd (Recv_Select response) t =
     Some (if sw t \<noteq> [] then (Recv_To_responses response, t\<lparr>sw := []\<rparr>)
           else (Recv_To_Responses response, t))"
  by (simp add: chan_recv_marker)

lemma receiveLoop_to_responses:
  "receiveLoop_step rd (Recv_To_responses response) t =
     (if responses t = [] then Some (Recv_Read, t\<lparr>responses := [response]\<rparr>) else None)"
  by (simp add: chan_send_1)

lemma receiveLoop_to_Responses:
  "receiveLoop_step rd (Recv_To_Responses response) t =
     (if Responses t = [] then Some (Recv_Read, t\<lparr>Responses := [response]\<rparr>) else None)"
  by (simp add: chan_send_1)

text \<open>
  Claim C6. For every frame read from the socket (a \<open>Read\<close> without error), with at
  most one marker in \<open>sw\<close>: if the marker is set, the \<open>select\<close> clears it and the
  frame is sent on \<open>responses\<close>, the channel of the waiting caller; if no marker is set,
  the frame is sent on \<open>Responses\<close>, the channel for unsolicited frames, and the marker
  channel stays empty. The send completes at once when the channel has room; when it is
  full the loop is parked at that send, holding the frame.
\<close>

theorem receiveLoop_dispatch:
  assumes "snd rd = None" and "length (sw t) \<le> 1"
  shows "receiveLoop_step rd (Recv_Select response) t =
           Some (if sw t \<noteq> [] then (Recv_To_responses response, t\<lparr>sw := []\<rparr>)
                 else (Recv_To_Responses response, t))
         \<and> receiveLoop_iteration rd t =
             (let response = length (mem t);
                  t1 = t\<lparr>mem := mem t @ [copy_bytes (replicate 6 0) (fst rd)]\<rparr>
              in if sw t \<noteq> []
                 then (if responses t = []
                       then (Recv_Read, t1\<lparr>sw := [], responses := [response]\<rparr>)
                       else (Recv_To_responses response, t1\<lparr>sw := []\<rparr>))
                 else (if Responses t = []
                       then (Recv_Read, t1\<lparr>Responses := [response]\<rparr>)
                       else (Recv_To_Responses response, t1)))"
proof -
  let ?t1 = "t\<lparr>mem := mem t @ [copy_bytes (replicate 6 0) (fst rd)]\<rparr>"
  have sw1: "length (sw ?t1) \<le> 1" using assms(2) by simp
  have "receiveLoop_iteration rd t = receiveLoop_run 2 rd (Recv_Select (length (mem t))) ?t1"
    by (simp add: receiveLoop_iteration_def numeral_3_eq_3 numeral_2_eq_2
        receiveLoop_read_ok [OF assms(1)] del: receiveLoop_step.simps)
  also have "\<dots> =
     (if sw t \<noteq> []
      then receiveLoop_run 1 rd (Recv_To_responses (length (mem t))) (?t1\<lparr>sw := []\<rparr>)
      else receiveLoop_run 1 rd (Recv_To_Responses (length (mem t))) ?t1)"
    by (simp add: numeral_2_eq_2 receiveLoop_select [OF sw1] del: receiveLoop_step.simps)
  also have "\<dots> =
     (if sw t \<noteq> []
      then (if responses t = []
            then (Recv_Read, ?t1\<lparr>sw := [], responses := [length (mem t)]\<rparr>)
            else (Recv_To_responses (length (mem t)), ?t1\<lparr>sw := []\<rparr>))
      else (if Responses t = []
            then (Recv_Read, ?t1\<lparr>Responses := [length (mem t)]\<rparr>)
            else (Recv_To_Responses (length (mem t)), ?t1)))"
    by (simp add: receiveLoop_to_responses receiveLoop_to_Responses del: receiveLoop_step.simps)
  finally show ?thesis
    using receiveLoop_select [OF assms(2), of rd response] by (simp add: Let_def)
qed

theorem receiveLoop_dispatch_witness:
  "snd ([0xAA, 0xBB, 0x03, 0x11, 0x02, 0x18::byte], None::error option) = None
   \<and> length (sw (connected\<lparr>sw := [True]\<rparr>)) \<le> 1
   \<and> receiveLoop_iteration ([0xAA, 0xBB, 0x03, 0x11, 0x02, 0x18], None) (connected\<lparr>sw := [True]\<rparr>)
       = (Recv_Read,
          connected\<lparr>mem := package_vars @ [[0xAA, 0xBB, 0x03, 0x11, 0x02, 0x18]],
                    responses := [8], sw := []\<rparr>)
   \<and> receiveLoop_iteration ([0xAA, 0xBB, 0x03, 0x11, 0x02, 0x18], None) connected
       = (Recv_Read,
          connected\<lparr>mem := package_vars @ [[0xAA, 0xBB, 0x03, 0x11, 0x02, 0x18]],
                    Responses := [8]\<rparr>)"
  using receiveLoop_dispatch [of "([0xAA, 0xBB, 0x03, 0x11, 0x02, 0x18], None)"
          "connected\<lparr>sw := [True]\<rparr>" 0]
        receiveLoop_dispatch [of "([0xAA, 0xBB, 0x03, 0x11, 0x02, 0x18], None)" connected 0]
  by (simp add: connected_def package_vars_def copy_into_six Let_def)

section \<open>The order of the write and the marker in \<open>send\<close>\<close>

text \<open>
  Claim C7, as amended. The first action of \<open>send\<close> hands the command bytes to the
  socket's \<open>Write\<close> and leaves \<open>sw\<close> as it is; the marker is set by the next action,
  and only when \<open>Write\<close> reported no error. So the marker of the issuing call is unset
  when the bytes are written, and a frame that the read loop dispatches right after the
  write, with no earlier marker pending, goes to \<open>Responses\<close>.
\<close>

theorem send_writes_before_marking:
  "send_step wr (Send_Write command) t =
     Some (case snd wr of Some e \<Rightarrow> Send_Return (Some e) | None \<Rightarrow> Send_Mark (fst wr),
           t\<lparr>conn := conn t @ [mem t ! command]\<rparr>)
   \<and> sw (t\<lparr>conn := conn t @ [mem t ! command]\<rparr>) = sw t
   \<and> send_step wr (Send_Mark n) t =
       (if sw t = [] then Some (Send_Check n, t\<lparr>sw := [True]\<rparr>) else None)
   \<and> (sw t = [] \<longrightarrow>
        receiveLoop_step rd (Recv_Select response) (t\<lparr>conn := conn t @ [mem t ! command]\<rparr>)
          = Some (Recv_To_Responses response, t\<lparr>conn := conn t @ [mem t ! command]\<rparr>))"
  by (simp add: chan_send_1 chan_recv_def split: option.splits)

theorem send_writes_before_marking_witness:
  "send_step (6, None) (Send_Write GET_CURRENT_INPUT) connected =
     Some (Send_Mark 6, connected\<lparr>conn := [[0xAA, 0xBB, 0x03, 0x10, 0x00, 0xEE]]\<rparr>)
   \<and> sw connected = []
   \<and> receiveLoop_step ([], None) (Recv_Select 8)
         (connected\<lparr>conn := [[0xAA, 0xBB, 0x03, 0x10, 0x00, 0xEE]]\<rparr>)
       = Some (Recv_To_Responses 8, connected\<lparr>conn := [[0xAA, 0xBB, 0x03, 0x10, 0x00, 0xEE]]\<rparr>)"
  using send_writes_before_marking [of "(6, None)" GET_CURRENT_INPUT connected 6 "([], None)" 8]
  by (simp add: connected_def GET_CURRENT_INPUT_def package_vars_def)

text \<open>
  After the write of a \<open>GetCurrentInput\<close> command the marker channel is still empty.
  In the schedule below the reply is read and dispatched before the caller sets the
  marker: it ends up on \<open>Responses\<close>, \<open>responses\<close> stays empty, and the marker is set
  only afterwards.
\<close>

theorem send_marker_before_write_counterexample:
  "interleave [Caller (6, None)] (Send_Write GET_CURRENT_INPUT, Recv_Read, connected)
     = Some (Send_Mark 6, Recv_Read,
             \<lparr>mem = package_vars, conn = [[0xAA, 0xBB, 0x03, 0x10, 0x00, 0xEE]],
              err = [], responses = [], Responses = [], sw = []\<rparr>)
   \<and> interleave
       [Caller (6, None),
        Receiver ([0xAA, 0xBB, 0x03, 0x11, 0x00, 0x16], None),
        Receiver ([], None),
        Receiver ([], None),
        Caller (6, None)]
       (Send_Write GET_CURRENT_INPUT, Recv_Read, connected)
     = Some (Send_Check 6, Recv_Read,
             \<lparr>mem = package_vars @ [[0xAA, 0xBB, 0x03, 0x11, 0x00, 0x16]],
              conn = [[0xAA, 0xBB, 0x03, 0x10, 0x00, 0xEE]],
              err = [], responses = [], Responses = [8], sw = [True]\<rparr>)"
  by (simp add: connected_def GET_CURRENT_INPUT_def package_vars_def make_bytes_def
      copy_bytes_def chan_send_def chan_recv_def)

text \<open>
  Claim C10. When \<open>Write\<close> reports no error and a byte count other than 6, the first
  two actions of \<open>send\<close> write the command and put the marker on \<open>sw\<close>; only then
  is the count tested, and the test returns the write-size-mismatch error without
  touching the state. So \<open>send\<close> returns that error with the marker set: the state is
  not the one before the call. This needs room in \<open>sw\<close>; with a marker already pending
  \<open>send\<close> is parked at \<open>t.sw <- true\<close>, after the write and before the test.
\<close>

theorem send_size_mismatch_after_marker:
  assumes "snd wr = None" and "fst wr \<noteq> 6"
  shows "send_run 2 wr (Send_Write command) t =
           (if sw t = []
            then (Send_Check (fst wr), t\<lparr>conn := conn t @ [mem t ! command], sw := [True]\<rparr>)
            else (Send_Mark (fst wr), t\<lparr>conn := conn t @ [mem t ! command]\<rparr>))
         \<and> send_step wr (Send_Check (fst wr)) t
             = Some (Send_Return (Some (WrongAmountOfBytes (fst wr))), t)
         \<and> send command wr t =
             (if sw t = []
              then (Returns (Some (WrongAmountOfBytes (fst wr))),
                    t\<lparr>conn := conn t @ [mem t ! command], sw := [True]\<rparr>)
              else (Parked, t\<lparr>conn := conn t @ [mem t ! command]\<rparr>))"
  using assms by (simp add: send_eq numeral_2_eq_2 chan_send_1)

theorem send_size_mismatch_after_marker_witness:
  "snd (5::int, None::error option) = None \<and> fst (5::int, None::error option) \<noteq> 6
   \<and> send MUTE_BUZZER (5, None) connected
       = (Returns (Some (WrongAmountOfBytes 5)),
          connected\<lparr>conn := [[0xAA, 0xBB, 0x03, 0x02, 0x00, 0xEE]], sw := [True]\<rparr>)
   \<and> send MUTE_BUZZER (5, None) (connected\<lparr>sw := [True]\<rparr>)
       = (Parked, connected\<lparr>conn := [[0xAA, 0xBB, 0x03, 0x02, 0x00, 0xEE]], sw := [True]\<rparr>)"
  using send_size_mismatch_after_marker [of "(5, None)" MUTE_BUZZER connected]
        send_size_mismatch_after_marker [of "(5, None)" MUTE_BUZZER "connected\<lparr>sw := [True]\<rparr>"]
  by (simp add: connected_def MUTE_BUZZER_def package_vars_def)

text \<open>
  The marker channel never holds more than one marker: the bound assumed for the
  dispatch rule is kept by every step of both goroutines.
\<close>

lemma sw_capacity_send_step:
  "send_step wr pc t = Some (pc', t') \<Longrightarrow> length (sw t) \<le> 1 \<Longrightarrow> length (sw t') \<le> 1"
  by (cases pc) (auto simp: chan_send_1 Let_def split: option.splits if_splits)

lemma sw_capacity_receiveLoop_step:
  "receiveLoop_step rd pc t = Some (pc', t') \<Longrightarrow> length (sw t) \<le> 1 \<Longrightarrow> length (sw t') \<le> 1"
  by (cases pc) (auto simp: chan_send_1 chan_recv_def make_bytes_def Let_def
      split: option.splits if_splits list.splits)

lemma sw_capacity_interleave:
  "interleave as (sp, rp, t) = Some (sp', rp', t') \<Longrightarrow> length (sw t) \<le> 1
   \<Longrightarrow> length (sw t') \<le> 1"
proof (induction as arbitrary: sp rp t)
  case Nil
  then show ?case by simp
next
  case (Cons a as)
  show ?case
  proof (cases a)
    case (Caller wr)
    with Cons.prems obtain sp1 t1 where
      s: "send_step wr sp t = Some (sp1, t1)" and r: "interleave as (sp1, rp, t1) = Some (sp', rp', t')"
      by (auto split: option.splits)
    show ?thesis
      using Cons.IH [OF r] sw_capacity_send_step [OF s] Cons.prems(2) by simp
  next
    case (Receiver rd)
    with Cons.prems obtain rp1 t1 where
      s: "receiveLoop_step rd rp t = Some (rp1, t1)" and r: "interleave as (sp, rp1, t1) = Some (sp', rp', t')"
      by (auto split: option.splits)
    show ?thesis
      using Cons.IH [OF r] sw_capacity_receiveLoop_step [OF s] Cons.prems(2) by simp
  qed
qed

section \<open>The command templates are never written\<close>

lemma keeps_arrays_append: "mem t' = mem t @ xs \<Longrightarrow> keeps_arrays t t'"
  by (simp add: keeps_arrays_def)

lemma keeps_arrays_same: "mem t' = mem t \<Longrightarrow> keeps_arrays t t'"
  by (simp add: keeps_arrays_def)

lemma keeps_arrays_length:
  assumes "keeps_arrays t t'"
  shows "length (mem t) \<le> length (mem t')"
proof -
  have "length (take (length (mem t)) (mem t')) = length (mem t)"
    using assms by (simp only: keeps_arrays_def)
  then show ?thesis by simp
qed

lemma keeps_arrays_trans:
  assumes "keeps_arrays t t'" and "keeps_arrays t' t''"
  shows "keeps_arrays t t''"
proof -
  have "take (length (mem t)) (mem t'') = take (length (mem t)) (take (length (mem t')) (mem t''))"
    using keeps_arrays_length [OF assms(1)] by (simp add: min_def)
  also have "\<dots> = take (length (mem t)) (mem t')"
    using assms(2) by (simp only: keeps_arrays_def)
  also have "\<dots> = mem t"
    using assms(1) by (simp only: keeps_arrays_def)
  finally show ?thesis by (simp only: keeps_arrays_def)
qed

lemma keeps_arrays_templates:
  assumes "keeps_arrays t t'" and "templates_intact (mem t)"
  shows "templates_intact (mem t')"
proof -
  have "take 8 (mem t') = take 8 (take (length (mem t)) (mem t'))"
    using templates_intact_length [OF assms(2)] by (simp add: min_def)
  also have "\<dots> = take 8 (mem t)"
    using assms(1) by (simp only: keeps_arrays_def)
  finally show ?thesis
    using assms(2) by (simp add: templates_intact_def)
qed

lemma mem_SwitchInput:
  assumes "templates_intact (mem t)"
  shows "mem (snd (SwitchInput n wr t)) = mem t @ [[0xAA, 0xBB, 0x03, 0x01, to_byte n, 0xEE]]"
proof -
  have len: "SWITCH_INPUT < length (mem t)"
    using templates_intact_length [OF assms] unfolding SWITCH_INPUT_def by linarith
  have tpl: "mem t ! SWITCH_INPUT = [0xAA, 0xBB, 0x03, 0x01, 0x00, 0xEE]"
    using templates_intact_nth [OF assms, of 0] by (simp add: SWITCH_INPUT_def package_vars_def)
  show ?thesis
    by (simp add: SwitchInput_def never_both_SwitchInput injectInputToPayload_eq [OF len] tpl
        copy_into_six then_await_mem mem_send)
qed

lemma mem_SetLedTimeout:
  assumes "templates_intact (mem t)"
  shows "mem (snd (SetLedTimeout n wr t)) = mem t @ [[0xAA, 0xBB, 0x03, 0x10, to_byte n, 0xEE]]"
proof -
  have len: "GET_CURRENT_INPUT < length (mem t)"
    using templates_intact_length [OF assms] unfolding GET_CURRENT_INPUT_def by linarith
  have tpl: "mem t ! GET_CURRENT_INPUT = [0xAA, 0xBB, 0x03, 0x10, 0x00, 0xEE]"
    using templates_intact_nth [OF assms, of 6] by (simp add: GET_CURRENT_INPUT_def package_vars_def)
  show ?thesis
    by (simp add: SetLedTimeout_def never_both_SetLedTimeout injectInputToPayload_eq [OF len] tpl
        copy_into_six then_await_mem mem_send)
qed

lemma mem_GetCurrentInput: "mem (snd (GetCurrentInput wr t)) = mem t"
  by (simp add: GetCurrentInput_def then_await_mem mem_send)

lemma mem_send_step: "send_step wr pc t = Some (pc', t') \<Longrightarrow> mem t' = mem t"
  by (cases pc) (auto simp: chan_send_1 Let_def split: option.splits if_splits)

lemma mem_receiveLoop_step:
  "receiveLoop_step rd pc t = Some (pc', t') \<Longrightarrow>
   mem t' = mem t \<or> mem t' = mem t @ [copy_bytes (replicate 6 0) (fst rd)]"
  by (cases pc) (auto simp: chan_send_1 chan_recv_def make_bytes_def Let_def
      split: option.splits if_splits list.splits)

text \<open>The same holds for the steps of the read loop and for every interleaving.\<close>

lemma keeps_arrays_receiveLoop_step:
  "receiveLoop_step rd pc t = Some (pc', t') \<Longrightarrow> keeps_arrays t t'"
  using mem_receiveLoop_step [of rd pc t pc' t']
  by (auto intro: keeps_arrays_append keeps_arrays_same)

lemma keeps_arrays_interleave:
  "interleave as (sp, rp, t) = Some (sp', rp', t') \<Longrightarrow> keeps_arrays t t'"
proof (induction as arbitrary: sp rp t)
  case Nil
  then show ?case by (simp add: keeps_arrays_same)
next
  case (Cons a as)
  show ?case
  proof (cases a)
    case (Caller wr)
    with Cons.prems obtain sp1 t1 where
      s: "send_step wr sp t = Some (sp1, t1)" and r: "interleave as (sp1, rp, t1) = Some (sp', rp', t')"
      by (auto split: option.splits)
    have "keeps_arrays t t1" using mem_send_step [OF s] by (rule keeps_arrays_same)
    then show ?thesis using Cons.IH [OF r] by (rule keeps_arrays_trans)
  next
    case (Receiver rd)
    with Cons.prems obtain rp1 t1 where
      s: "receiveLoop_step rd rp t = Some (rp1, t1)" and r: "interleave as (sp, rp1, t1) = Some (sp', rp', t')"
      by (auto split: option.splits)
    have "keeps_arrays t t1" using s by (rule keeps_arrays_receiveLoop_step)
    then show ?thesis using Cons.IH [OF r] by (rule keeps_arrays_trans)
  qed
qed

lemma inject_length: "length ((copy_bytes (replicate 6 0) src)[4 := input]) = 6"
  by (simp add: copy_bytes_def)

text \<open>
  Claim C8. \<open>injectInputToPayload\<close> returns a newly allocated 6-byte array and leaves
  every existing array, its \<open>payload\<close> argument included, as it was. Hence each public
  operation of the client keeps all existing arrays, for every parameter value, and the
  package templates still hold their initial bytes afterwards.
\<close>

theorem templates_never_mutated:
  assumes "templates_intact (mem t)"
  shows "(payload < length (mem t) \<longrightarrow>
            injectInputToPayload payload input (mem t)
              = (length (mem t),
                 mem t @ [(copy_bytes (replicate 6 0) (mem t ! payload))[4 := input]])
            \<and> length ((copy_bytes (replicate 6 0) (mem t ! payload))[4 := input]) = 6)
         \<and> keeps_arrays t (snd (SwitchInput n wr t))
         \<and> keeps_arrays t (snd (SetLedTimeout n wr t))
         \<and> keeps_arrays t (snd (MuteBuzzer wr t))
         \<and> keeps_arrays t (snd (UnmuteBuzzer wr t))
         \<and> keeps_arrays t (snd (EnableAutoInputDetection wr t))
         \<and> keeps_arrays t (snd (DisableAutoInputDetection wr t))
         \<and> keeps_arrays t (snd (GetCurrentInput wr t))
         \<and> (\<forall>t'. keeps_arrays t t' \<longrightarrow> templates_intact (mem t'))"
proof (intro conjI impI allI)
  assume "payload < length (mem t)"
  then show "injectInputToPayload payload input (mem t)
              = (length (mem t),
                 mem t @ [(copy_bytes (replicate 6 0) (mem t ! payload))[4 := input]])"
    by (rule injectInputToPayload_eq)
next
  show "length ((copy_bytes (replicate 6 0) (mem t ! payload))[4 := input]) = 6"
    by (rule inject_length)
next
  show "keeps_arrays t (snd (SwitchInput n wr t))"
    using mem_SwitchInput [OF assms] by (rule keeps_arrays_append)
next
  show "keeps_arrays t (snd (SetLedTimeout n wr t))"
    using mem_SetLedTimeout [OF assms] by (rule keeps_arrays_append)
next
  show "keeps_arrays t (snd (MuteBuzzer wr t))"
    unfolding MuteBuzzer_def using mem_send by (rule keeps_arrays_same)
next
  show "keeps_arrays t (snd (UnmuteBuzzer wr t))"
    unfolding UnmuteBuzzer_def using mem_send by (rule keeps_arrays_same)
next
  show "keeps_arrays t (snd (EnableAutoInputDetection wr t))"
    unfolding EnableAutoInputDetection_def using mem_send by (rule keeps_arrays_same)
next
  show "keeps_arrays t (snd (DisableAutoInputDetection wr t))"
    unfolding DisableAutoInputDetection_def using mem_send by (rule keeps_arrays_same)
next
  show "keeps_arrays t (snd (GetCurrentInput wr t))"
    using mem_GetCurrentInput by (rule keeps_arrays_same)
next
  fix t' assume "keeps_arrays t t'"
  then show "templates_intact (mem t')"
    using assms by (rule keeps_arrays_templates)
qed

theorem templates_never_mutated_witness:
  "templates_intact (mem connected)
   \<and> SWITCH_INPUT < length (mem connected)
   \<and> injectInputToPayload SWITCH_INPUT 3 (mem connected)
       = (8, package_vars @ [[0xAA, 0xBB, 0x03, 0x01, 0x03, 0xEE]])
   \<and> keeps_arrays connected (snd (SwitchInput 3 (6, None) connected))
   \<and> templates_intact (mem (snd (SwitchInput 3 (6, None) connected)))"
proof -
  have p: "SWITCH_INPUT < length (mem connected)"
    by (simp add: SWITCH_INPUT_def connected_def package_vars_def)
  have v: "(copy_bytes (replicate 6 0) (mem connected ! SWITCH_INPUT))[4 := 3]
           = [0xAA, 0xBB, 0x03, 0x01, 0x03, 0xEE]"
    by (simp add: SWITCH_INPUT_def connected_def package_vars_def copy_into_six)
  have l: "length (mem connected) = 8"
    by (simp add: connected_def package_vars_def)
  have c: "mem connected = package_vars"
    by (simp add: connected_def)
  note w = templates_never_mutated [OF templates_intact_connected,
      of SWITCH_INPUT 3 3 "(6, None)"]
  have i: "injectInputToPayload SWITCH_INPUT 3 (mem connected)
       = (length (mem connected),
          mem connected @ [(copy_bytes (replicate 6 0) (mem connected ! SWITCH_INPUT))[4 := 3]])"
    using w [THEN conjunct1] p by (simp only: simp_thms)
  have k: "keeps_arrays connected (snd (SwitchInput 3 (6, None) connected))"
    using w [THEN conjunct2, THEN conjunct1] .
  have f: "\<forall>t'. keeps_arrays connected t' \<longrightarrow> templates_intact (mem t')"
    using w by (elim conjE)
  have ti: "templates_intact (mem (snd (SwitchInput 3 (6, None) connected)))"
    using f [rule_format, OF k] .
  have i': "injectInputToPayload SWITCH_INPUT 3 (mem connected)
       = (8, package_vars @ [[0xAA, 0xBB, 0x03, 0x01, 0x03, 0xEE]])"
    using i unfolding v l by (simp only: c)
  show ?thesis
    using templates_intact_connected p i' k ti by (simp only: simp_thms)
qed

end
